theory Spec2Isabelle
  imports Complex_Main
begin

section \<open>Python strings and the library functions the program calls\<close>

text \<open>
  A Python \<open>str\<close> is a sequence of Unicode code points; it is modelled as a list of
  natural numbers. \<open>py\<close> reads an ASCII literal as such a list.
\<close>

type_synonym pystr = "nat list"

abbreviation py :: "string \<Rightarrow> pystr" where
  "py s \<equiv> map of_char s"

text \<open>
  The code points that \<open>str.split()\<close> (no separator) treats as whitespace: TAB..CR,
  FS..US, SPACE, NEL, NBSP, U+1680, U+2000..U+200A, U+2028, U+2029, U+202F, U+205F, U+3000.
\<close>

definition py_isspace :: "nat \<Rightarrow> bool" where
  "py_isspace c \<longleftrightarrow>
     (9 \<le> c \<and> c \<le> 13) \<or> (28 \<le> c \<and> c \<le> 32) \<or> c = 133 \<or> c = 160 \<or> c = 5760 \<or>
     (8192 \<le> c \<and> c \<le> 8202) \<or> c = 8232 \<or> c = 8233 \<or> c = 8239 \<or> c = 8287 \<or> c = 12288"

text \<open>
  \<open>text.split()\<close>: one left-to-right scan; \<open>w\<close> is the word read so far. Runs of
  whitespace separate words, and no empty word is produced.
\<close>

fun split_from :: "pystr \<Rightarrow> pystr \<Rightarrow> pystr list" where
  "split_from w [] = (if w = [] then [] else [w])"
| "split_from w (c # cs) =
     (if py_isspace c then (if w = [] then split_from [] cs else w # split_from [] cs)
      else split_from (w @ [c]) cs)"

definition py_split :: "pystr \<Rightarrow> pystr list" where
  "py_split s = split_from [] s"

text \<open>\<open>sep.join(ws)\<close>.\<close>

fun py_join :: "pystr \<Rightarrow> pystr list \<Rightarrow> pystr" where
  "py_join sep [] = []"
| "py_join sep [w] = w"
| "py_join sep (w # v # ws) = w @ sep @ py_join sep (v # ws)"

text \<open>
  \<open>xs[i:j]\<close> for Python integers \<open>i\<close>, \<open>j\<close>: a negative bound counts from the end,
  both bounds are clamped to \<open>0..len(xs)\<close>, and the slice is empty when the bounds cross.
\<close>

definition py_slice :: "'a list \<Rightarrow> int \<Rightarrow> int \<Rightarrow> 'a list" where
  "py_slice xs i j =
     (let n = int (length xs);
          lo = (if i < 0 then max (i + n) 0 else min i n);
          hi = (if j < 0 then max (j + n) 0 else min j n)
      in if lo < hi then take (nat (hi - lo)) (drop (nat lo) xs) else [])"

text \<open>\<open>str(i)\<close> for a non-negative integer: its decimal digits, no leading zero.\<close>

fun str_nat :: "nat \<Rightarrow> pystr" where
  "str_nat n = (if n < 10 then [48 + n] else str_nat (n div 10) @ [48 + n mod 10])"

declare str_nat.simps [simp del]

section \<open>The chunker: \<open>chunk_text\<close>\<close>

text \<open>
  The \<open>while\<close> loop of \<open>chunk_text\<close>. Nothing in the source bounds the number of
  iterations, so the loop is a partial function: \<open>None\<close> means that it does not return.
  \<open>max_words\<close> and \<open>overlap\<close> are Python integers of either sign.
\<close>

partial_function (option) chunk_loop ::
  "pystr list \<Rightarrow> int \<Rightarrow> int \<Rightarrow> pystr list \<Rightarrow> int \<Rightarrow> pystr list option" where
  "chunk_loop words max_words overlap chunks i =
     (if i < int (length words)
      then chunk_loop words max_words overlap
             (chunks @ [py_join (py '' '') (py_slice words i (i + max_words))])
             (i + (max_words - overlap))
      else Some chunks)"

definition chunk_text :: "pystr \<Rightarrow> int \<Rightarrow> int \<Rightarrow> pystr list option" where
  "chunk_text text max_words overlap =
     (let words = py_split text
      in if int (length words) \<le> max_words then Some [text]
         else chunk_loop words max_words overlap [] 0)"

text \<open>
  The reading of claim C3's "de-overlapped concatenation": the first chunk's words in
  full, then every later chunk's words without their first \<open>overlap\<close> words.
\<close>

definition deoverlap :: "nat \<Rightarrow> 'a list list \<Rightarrow> 'a list" where
  "deoverlap ov spans = (case spans of [] \<Rightarrow> [] | s # rest \<Rightarrow> s @ concat (map (drop ov) rest))"

section \<open>The corpus reader: \<open>read_files\<close>\<close>

text \<open>
  What \<open>read_text(errors='ignore')\<close> meets in a file. Opening or reading may raise
  (\<open>Unreadable\<close>). Otherwise the codec cuts the bytes into units: \<open>Some c\<close> is a
  well-formed sequence that decodes to the code point \<open>c\<close>, \<open>None\<close> is a malformed
  sequence, which the error handler \<open>'ignore'\<close> drops without raising. The file is
  opened in text mode with no \<open>newline\<close> argument, so the decoded text then passes
  through the universal-newline translation: CR LF and a lone CR (code point 13) both
  become LF (code point 10).
\<close>

datatype error = OSError | ModelError | IndexError

datatype pyfile = Unreadable | Readable "nat option list"

definition decode_ignore :: "nat option list \<Rightarrow> pystr" where
  "decode_ignore us = concat (map (\<lambda>u. case u of None \<Rightarrow> [] | Some c \<Rightarrow> [c]) us)"


fun universal_newlines :: "pystr \<Rightarrow> pystr" where
  "universal_newlines [] = []"
| "universal_newlines [c] = (if c = 13 then [10] else [c])"
| "universal_newlines (c # d # cs) =
     (if c = 13
      then (if d = 10 then 10 # universal_newlines cs else 10 # universal_newlines (d # cs))
      else c # universal_newlines (d # cs))"

fun read_text :: "pyfile \<Rightarrow> error + pystr" where
  "read_text Unreadable = Inl OSError"
| "read_text (Readable us) = Inr (universal_newlines (decode_ignore us))"

text \<open>
  The three ways \<open>is_file()\<close> ends on a path: it returns \<open>True\<close> (a regular file,
  with what reading it meets), it returns \<open>False\<close> (a directory or any other kind of
  entry, and a path whose \<open>stat\<close> fails with an error that \<open>pathlib\<close> swallows, such
  as a path that has vanished), or it raises (\<open>pathlib\<close> re-raises every other
  \<open>OSError\<close>, such as the permission error for a file in a directory that can be listed
  but not searched).
\<close>

datatype kind = RegularFile pyfile | NotFile | StatRaises

text \<open>
  What \<open>Path(root)\<close> denotes: a regular file with its name (\<open>p.name\<close>); a path
  on which \<open>p.is_file()\<close> is false, with the entries that \<open>p.rglob('*')\<close> yields, in
  that order, each being its path relative to the root and how \<open>f.is_file()\<close> ends on
  it; or a path on which \<open>p.is_file()\<close> raises.
\<close>

type_synonym dirent = "pystr \<times> kind"

datatype node = FileNode pystr pyfile | DirNode "dirent list" | RootStatRaises

text \<open>
  The \<open>for f in p.rglob('*')\<close> loop; \<open>items\<close> is the list built so far. The test
  \<open>f.is_file()\<close> stands outside the \<open>try\<close>, so when it raises the exception leaves
  \<open>read_files\<close>; the \<open>try\<close> covers \<open>read_text\<close> only.
\<close>

fun read_dir :: "(pystr \<times> pystr) list \<Rightarrow> dirent list \<Rightarrow> error + (pystr \<times> pystr) list" where
  "read_dir items [] = Inr items"
| "read_dir items ((rel, StatRaises) # fs) = Inl OSError"
| "read_dir items ((rel, NotFile) # fs) = read_dir items fs"
| "read_dir items ((rel, RegularFile f) # fs) =
     (case read_text f of
        Inr t \<Rightarrow> read_dir (items @ [(rel, t)]) fs
      | Inl _ \<Rightarrow> read_dir (items @ [(rel, [])]) fs)"

fun read_files :: "node \<Rightarrow> error + (pystr \<times> pystr) list" where
  "read_files RootStatRaises = Inl OSError"
| "read_files (FileNode name f) =
     (case read_text f of Inl e \<Rightarrow> Inl e | Inr t \<Rightarrow> Inr [(name, t)])"
| "read_files (DirNode fs) = read_dir [] fs"

text \<open>
  The files of a walked root for which the reader substituted empty content because
  reading them raised (the spec's \<open>UnreadableFile\<close>).
\<close>

fun skipped_files :: "node \<Rightarrow> pystr list" where
  "skipped_files RootStatRaises = []"
| "skipped_files (FileNode name f) = []"
| "skipped_files (DirNode fs) = map fst (filter (\<lambda>(rel, k). k = RegularFile Unreadable) fs)"

section \<open>Entries and \<open>main\<close>\<close>

text \<open>
  The dictionary that \<open>main\<close> appends for each chunk. The embedding is added by a later
  loop, so a written entry is a pair of this record and its embedding.
\<close>

record entry =
  entry_id :: pystr
  entry_text :: pystr
  meta_repo :: pystr
  meta_path :: pystr
  meta_chunk :: nat

definition make_id :: "pystr \<Rightarrow> pystr \<Rightarrow> nat \<Rightarrow> pystr" where
  "make_id repo fname i = repo @ py ''::'' @ fname @ py ''::chunk'' @ str_nat i"

definition make_entry :: "pystr \<Rightarrow> pystr \<Rightarrow> nat \<times> pystr \<Rightarrow> entry" where
  "make_entry repo fname ich =
     \<lparr>entry_id = make_id repo fname (fst ich), entry_text = snd ich,
      meta_repo = repo, meta_path = fname, meta_chunk = fst ich\<rparr>"

text \<open>
  The nested \<open>for\<close> loops of \<open>main\<close> over the files and over
  \<open>enumerate(chunk_text(txt or ""))\<close>, with the default \<open>max_words = 600\<close> and
  \<open>overlap = 100\<close>; \<open>entries\<close> is the list built so far.
\<close>

fun build_entries :: "pystr \<Rightarrow> entry list \<Rightarrow> (pystr \<times> pystr) list \<Rightarrow> entry list option" where
  "build_entries repo entries [] = Some entries"
| "build_entries repo entries ((fname, txt) # rest) =
     (case chunk_text (if txt \<noteq> [] then txt else []) 600 100 of
        None \<Rightarrow> None
      | Some chunks \<Rightarrow>
          build_entries repo (entries @ map (make_entry repo fname) (enumerate 0 chunks)) rest)"

text \<open>
  The entries that one pass of the outer loop appends for the file \<open>(fname, txt)\<close>.
\<close>

definition file_entries :: "pystr \<Rightarrow> pystr \<times> pystr \<Rightarrow> entry list" where
  "file_entries repo ft =
     (case chunk_text (snd ft) 600 100 of
        None \<Rightarrow> []
      | Some chunks \<Rightarrow> map (make_entry repo (fst ft)) (enumerate 0 chunks))"

text \<open>
  The loop \<open>for i, e in enumerate(entries): e["embedding"] = embs[i].tolist()\<close>;
  \<open>embs[i]\<close> raises when the model returned fewer than \<open>i + 1\<close> rows.
\<close>

fun attach :: "nat \<Rightarrow> entry list \<Rightarrow> 'v list \<Rightarrow> error + (entry \<times> 'v) list" where
  "attach i [] embs = Inr []"
| "attach i (e # es) embs =
     (if i < length embs
      then (case attach (Suc i) es embs of Inl x \<Rightarrow> Inl x | Inr r \<Rightarrow> Inr ((e, embs ! i) # r))
      else Inl IndexError)"

text \<open>
  How a run of \<open>main\<close> ends: \<open>sys.exit\<close> after printing a line, an uncaught exception,
  or completion, with the output path, the entries dumped to it and the line printed.
\<close>

datatype 'v outcome =
    Exit pystr nat
  | Raised error
  | Done pystr "(entry \<times> 'v) list" pystr

text \<open>
  \<open>main\<close>. Its surroundings are parameters: the embedding model \<open>encode\<close> (it returns
  rows, one per text, or raises), \<open>root_node\<close> (what the root path \<open>sys.argv[1]\<close>
  denotes in the file system) and \<open>can_write\<close> (whether \<open>open(out, "w")\<close> succeeds).
  \<open>argv\<close> is \<open>sys.argv\<close>. \<open>None\<close> means that the run does not return.
\<close>

definition main ::
  "(pystr list \<Rightarrow> error + 'v list) \<Rightarrow> node \<Rightarrow> bool \<Rightarrow> pystr list \<Rightarrow> 'v outcome option" where
  "main encode root_node can_write argv =
     (if length argv < 3
      then Some (Exit (py ''usage: embed_all_files.py <root> <out.json>'') 1)
      else
        let out = argv ! 2;
            repo = (if length argv > 3 then argv ! 3 else py ''repo'')
        in case read_files root_node of
             Inl e \<Rightarrow> Some (Raised e)
           | Inr items \<Rightarrow>
               (case build_entries repo [] items of
                  None \<Rightarrow> None
                | Some entries \<Rightarrow>
                    (case encode (map entry_text entries) of
                       Inl e \<Rightarrow> Some (Raised e)
                     | Inr embs \<Rightarrow>
                         (case attach 0 entries embs of
                            Inl e \<Rightarrow> Some (Raised e)
                          | Inr full \<Rightarrow>
                              if can_write
                              then Some (Done out full
                                     (py ''Wrote '' @ str_nat (length entries) @ py '' entries''))
                              else Some (Raised OSError)))))"

section \<open>Unfolding the loop of the chunker\<close>

text \<open>One iteration, and the exit, as conditional equations; they evaluate the loop on a concrete text.\<close>

lemma chunk_loop_step:
  "i < int (length words) \<Longrightarrow>
   chunk_loop words max_words overlap chunks i =
   chunk_loop words max_words overlap
     (chunks @ [py_join (py '' '') (py_slice words i (i + max_words))])
     (i + (max_words - overlap))"
  by (subst chunk_loop.simps) simp

lemma chunk_loop_stop:
  "\<not> i < int (length words) \<Longrightarrow>
   chunk_loop words max_words overlap chunks i = Some chunks"
  by (subst chunk_loop.simps) simp

lemmas chunk_eval =
  chunk_text_def py_split_def py_isspace_def py_slice_def chunk_loop_step chunk_loop_stop

section \<open>When the loop returns\<close>

text \<open>
  With a step \<open>max_words - overlap \<le> 0\<close> the index never passes the word count: the
  loop does not return.
\<close>

lemma chunk_loop_Some_advances:
  assumes "chunk_loop words mw ov chunks i = Some y"
  shows "\<not> (mw - ov \<le> 0 \<and> i < int (length words))"
  by (rule chunk_loop.raw_induct
        [where P = "\<lambda>words mw ov chunks i y. \<not> (mw - ov \<le> 0 \<and> i < int (length words))", OF _ assms])
     (fastforce split: if_splits)

text \<open>Hence, from an index below the word count, the loop has no result.\<close>

lemma chunk_loop_diverges:
  assumes "mw - ov \<le> 0" and "i < int (length words)"
  shows "chunk_loop words mw ov chunks i = None"
proof (cases "chunk_loop words mw ov chunks i")
  case None
  then show ?thesis .
next
  case (Some y)
  from chunk_loop_Some_advances [OF Some] assms show ?thesis by simp
qed

text \<open>A slice with non-negative bounds is a \<open>take\<close> of a \<open>drop\<close>.\<close>

lemma py_slice_window:
  assumes "0 \<le> i" and "0 \<le> m"
  shows "py_slice xs i (i + m) = take (nat m) (drop (nat i) xs)"
  using assms by (auto simp: py_slice_def Let_def min_def)

text \<open>
  With a positive step the loop returns, and its result is the list of windows that start
  at \<open>i\<close>, \<open>i + step\<close>, \<open>i + 2 * step\<close>, ... below the word count.
\<close>

lemma chunk_loop_closed:
  assumes "0 < mw - ov"
  shows "chunk_loop words mw ov chunks i =
         Some (chunks @ map (\<lambda>k. py_join (py '' '') (py_slice words (i + int k * (mw - ov)) (i + int k * (mw - ov) + mw)))
                 [0..<nat ((int (length words) - i + (mw - ov) - 1) div (mw - ov))])"
proof (induction "nat (int (length words) - i)" arbitrary: i chunks rule: less_induct)
  case less
  let ?W = "int (length words)" and ?s = "mw - ov"
  show ?case
  proof (cases "i < ?W")
    case False
    then have "?W - i + ?s - 1 \<le> ?s - 1" by simp
    then have "(?W - i + ?s - 1) div ?s \<le> (?s - 1) div ?s"
      using assms by (intro zdiv_mono1) simp_all
    then have "(?W - i + ?s - 1) div ?s \<le> 0"
      using assms by (simp add: div_pos_pos_trivial)
    with False show ?thesis by (simp add: chunk_loop_stop)
  next
    case True
    have m: "nat (?W - (i + ?s)) < nat (?W - i)" using True assms by linarith
    have n: "nat ((?W - i + ?s - 1) div ?s) = Suc (nat ((?W - (i + ?s) + ?s - 1) div ?s))"
    proof -
      have "(?W - i + ?s - 1) div ?s = (?W - i - 1) div ?s + 1"
        using assms by (metis add.commute add_diff_eq div_add_self1 less_numeral_extra(3) diff_add_eq)
      moreover have "0 \<le> (?W - i - 1) div ?s" using True assms by (simp add: pos_imp_zdiv_nonneg_iff)
      ultimately show ?thesis by (simp add: algebra_simps nat_add_distrib)
    qed
    have u: "[0..<Suc k] = 0 # map Suc [0..<k]" for k
      by (simp add: upt_conv_Cons map_Suc_upt del: upt_Suc)
    show ?thesis
      unfolding chunk_loop_step [OF True] less.hyps [OF m] n u
      by (simp add: o_def algebra_simps)
  qed
qed


section \<open>Splitting a joined list of words\<close>

lemma split_from_word:
  "\<forall>c\<in>set u. \<not> py_isspace c \<Longrightarrow> split_from w (u @ s) = split_from (w @ u) s"
  by (induction u arbitrary: w) simp_all

lemma split_from_wordlike:
  "\<forall>c\<in>set w. \<not> py_isspace c \<Longrightarrow>
   \<forall>v\<in>set (split_from w s). v \<noteq> [] \<and> (\<forall>c\<in>set v. \<not> py_isspace c)"
proof (induction s arbitrary: w)
  case Nil
  then show ?case by simp
next
  case (Cons a s)
  show ?case
  proof (cases "py_isspace a")
    case True
    with Cons.prems Cons.IH [of "[]"] show ?thesis by simp
  next
    case False
    with Cons.prems Cons.IH [of "w @ [a]"] show ?thesis by simp
  qed
qed

lemma py_split_wordlike:
  "v \<in> set (py_split s) \<Longrightarrow> v \<noteq> [] \<and> (\<forall>c\<in>set v. \<not> py_isspace c)"
  unfolding py_split_def using split_from_wordlike [of "[]" s] by simp

lemma py_isspace_32: "py_isspace 32"
  by (simp add: py_isspace_def)

lemma split_join:
  "\<forall>v\<in>set ws. v \<noteq> [] \<and> (\<forall>c\<in>set v. \<not> py_isspace c) \<Longrightarrow>
   py_split (py_join (py '' '') ws) = ws"
proof (induction "py '' ''" ws rule: py_join.induct)
  case 1
  then show ?case by (simp add: py_split_def)
next
  case (2 w)
  then show ?case
    using split_from_word [of w "[]" "[]"] by (simp add: py_split_def)
next
  case (3 w v ws)
  have "split_from [] (w @ 32 # py_join [32] (v # ws)) = split_from w (32 # py_join [32] (v # ws))"
    using 3(2) split_from_word [of w "[]" "32 # py_join [32] (v # ws)"] by simp
  also have "\<dots> = w # split_from [] (py_join [32] (v # ws))"
    using 3(2) by (simp add: py_isspace_32)
  finally show ?case using 3 by (simp add: py_split_def)
qed

lemma split_join_sub:
  assumes "set ws \<subseteq> set (py_split s)"
  shows "py_split (py_join (py '' '') ws) = ws"
  using assms py_split_wordlike by (intro split_join) blast

section \<open>Counting and covering\<close>

text \<open>Consecutive pieces of \<open>s\<close> elements make up a prefix; and the number of windows is a ceiling.\<close>

lemma concat_steps:
  "concat (map (\<lambda>j. take s (drop (a + j * s) xs)) [0..<r]) = take (r * s) (drop a xs)"
proof (induction r)
  case 0
  then show ?case by simp
next
  case (Suc r)
  have "take (Suc r * s) (drop a xs) = take (r * s) (drop a xs) @ take s (drop (a + r * s) xs)"
    using take_add [of "r * s" s "drop a xs"] by (simp add: add.commute)
  with Suc show ?case by simp
qed


lemma ceil_div:
  fixes W s :: nat
  assumes "0 < s"
  shows "nat \<lceil>real W / real s\<rceil> = (W + s - 1) div s"
proof -
  let ?q = "(W + s - 1) div s"
  have a: "?q * s \<le> W + s - 1" by simp
  have b: "W + s - 1 < ?q * s + s"
    using assms dividend_less_div_times [of s "W + s - 1"] by (simp add: mult.commute)
  have up: "W \<le> ?q * s" using b assms by linarith
  have lo: "int ?q * int s - int s < int W"
  proof -
    have "int (?q * s) \<le> int (W + s - 1)" using a by (rule zle_int [THEN iffD2])
    then show ?thesis using assms by (simp add: of_nat_diff)
  qed
  have "\<lceil>real W / real s\<rceil> = int ?q"
  proof (rule ceiling_unique)
    have "real_of_int (int ?q * int s - int s) < real_of_int (int W)"
      using lo by (simp only: of_int_less_iff)
    then have "(real ?q - 1) * real s < real W" by (simp add: algebra_simps)
    then show "real_of_int (int ?q) - 1 < real W / real s"
      using assms by (simp add: pos_less_divide_eq)
    have "real W \<le> real (?q * s)" using up by (simp only: of_nat_le_iff)
    then show "real W / real s \<le> real_of_int (int ?q)"
      using assms by (simp add: pos_divide_le_eq)
  qed
  then show ?thesis by simp
qed

lemma ceil_div_upper:
  fixes W s :: nat
  assumes "0 < s"
  shows "W \<le> ((W + s - 1) div s) * s"
proof -
  have "W + s - 1 < ((W + s - 1) div s) * s + s"
    using assms dividend_less_div_times [of s "W + s - 1"] by (simp add: mult.commute)
  then show ?thesis using assms by linarith
qed

lemma cover_steps:
  fixes xs :: "'a list" and m s ov n :: nat
  assumes "ov + s = m" and "0 < n" and "length xs \<le> n * s"
  shows "deoverlap ov (map (\<lambda>k. take m (drop (k * s) xs)) [0..<n]) = xs"
proof -
  obtain r where n: "n = Suc r" using assms(2) by (cases n) simp_all
  have u: "[0..<Suc r] = 0 # map Suc [0..<r]"
    by (simp add: upt_conv_Cons map_Suc_upt del: upt_Suc)
  have piece: "drop ov (take m (drop (Suc j * s) xs)) = take s (drop (m + j * s) xs)" for j
  proof -
    have e: "m - ov = s" "ov + Suc j * s = m + j * s" using assms(1) by simp_all
    show ?thesis by (simp only: drop_take drop_drop e)
  qed
  have "deoverlap ov (map (\<lambda>k. take m (drop (k * s) xs)) [0..<n])
        = take m xs @ concat (map (\<lambda>j. take s (drop (m + j * s) xs)) [0..<r])"
    unfolding n u deoverlap_def by (simp add: o_def piece del: mult_Suc)
  also have "\<dots> = take m xs @ take (r * s) (drop m xs)"
    by (simp only: concat_steps)
  also have "\<dots> = take (m + r * s) xs"
    by (simp add: take_add)
  also have "\<dots> = xs"
    using assms(1,3) n by simp
  finally show ?thesis .
qed

text \<open>
  The result of \<open>chunk_text\<close> when the text has more than \<open>max_words\<close> words and the
  step is positive: one window per multiple of the step below the word count.
\<close>

lemma chunk_text_long:
  assumes "0 \<le> overlap" and "overlap < max_words"
    and "max_words < int (length (py_split text))"
  shows "chunk_text text max_words overlap =
         Some (map (\<lambda>k. py_join (py '' '')
                      (take (nat max_words) (drop (k * nat (max_words - overlap)) (py_split text))))
                 [0..<(length (py_split text) + nat (max_words - overlap) - 1)
                        div nat (max_words - overlap)])"
proof -
  let ?words = "py_split text" and ?s = "nat (max_words - overlap)"
  have s: "0 < max_words - overlap" "int ?s = max_words - overlap" using assms by simp_all
  have n: "nat ((int (length ?words) - 0 + (max_words - overlap) - 1) div (max_words - overlap))
           = (length ?words + ?s - 1) div ?s"
  proof -
    have "int ((length ?words + ?s - 1) div ?s) = int (length ?words + ?s - 1) div int ?s"
      by (rule zdiv_int)
    also have "int (length ?words + ?s - 1) = int (length ?words) + int ?s - 1"
      using s by (simp add: of_nat_diff)
    finally show ?thesis using s by simp
  qed
  have w: "py_slice ?words (0 + int k * (max_words - overlap)) (0 + int k * (max_words - overlap) + max_words)
           = take (nat max_words) (drop (k * ?s) ?words)" for k
  proof -
    have "0 \<le> int k * (max_words - overlap)" using s by simp
    moreover have "nat (int k * (max_words - overlap)) = k * ?s"
      using s by (simp add: nat_mult_distrib)
    ultimately show ?thesis
      using assms py_slice_window [of "int k * (max_words - overlap)" max_words ?words] by simp
  qed
  have "chunk_text text max_words overlap = chunk_loop ?words max_words overlap [] 0"
    using assms by (simp add: chunk_text_def)
  also have "\<dots> = Some ([] @ map (\<lambda>k. py_join (py '' '')
       (py_slice ?words (0 + int k * (max_words - overlap)) (0 + int k * (max_words - overlap) + max_words)))
       [0..<nat ((int (length ?words) - 0 + (max_words - overlap) - 1) div (max_words - overlap))])"
    using s(1) by (rule chunk_loop_closed)
  finally show ?thesis unfolding n w by simp
qed

section \<open>Claims about the chunker\<close>

text \<open>
  Claim C1, as the code behaves. On \<open>"one two three four five"\<close> with \<open>max_words = 2\<close>
  and \<open>overlap = 1\<close> the loop starts a window at every index 0, 1, 2, 3, 4 below the word
  count, so \<open>chunk_text\<close> returns five chunks: the four of the claim followed by
  \<open>"five"\<close>.
\<close>

theorem chunk_text_one_to_five:
  "chunk_text (py ''one two three four five'') 2 1 =
   Some [py ''one two'', py ''two three'', py ''three four'', py ''four five'', py ''five'']"
  by (simp add: chunk_eval)

text \<open>Hence the result is not the list of four chunks that claim C1 states.\<close>

theorem chunk_text_one_to_five_not_four:
  "chunk_text (py ''one two three four five'') 2 1 \<noteq>
   Some [py ''one two'', py ''two three'', py ''three four'', py ''four five'']"
  by (simp add: chunk_eval)

text \<open>
  Claim C2, as the code behaves. \<open>chunk_text\<close> validates nothing and raises no
  configuration error. With \<open>overlap \<ge> max_words\<close>: a text of at most \<open>max_words\<close>
  words is returned whole as the single chunk; a text with more words sends the loop round
  for ever, since the index never advances (\<open>None\<close>); and when \<open>max_words\<close> is negative
  and the text has no word at all, the loop body never runs and the result is the empty list.
\<close>

theorem chunk_text_nonpositive_step:
  assumes "max_words \<le> overlap"
  shows "chunk_text text max_words overlap =
         (if int (length (py_split text)) \<le> max_words then Some [text]
          else if py_split text = [] then Some [] else None)"
proof (cases "int (length (py_split text)) \<le> max_words")
  case True
  then show ?thesis by (simp add: chunk_text_def)
next
  case False
  show ?thesis
  proof (cases "py_split text = []")
    case True
    with False show ?thesis by (simp add: chunk_text_def chunk_loop_stop)
  next
    case ne: False
    then have "0 < int (length (py_split text))" by simp
    moreover have "max_words - overlap \<le> 0" using assms by simp
    ultimately have "chunk_loop (py_split text) max_words overlap [] 0 = None"
      by (intro chunk_loop_diverges)
    with False ne show ?thesis by (simp add: chunk_text_def)
  qed
qed

text \<open>
  The theorem at \<open>max_words = overlap = 5\<close>: six words loop, five words come back whole.
\<close>

theorem chunk_text_nonpositive_step_witness:
  "(5::int) \<le> 5 \<and> chunk_text (py ''a b c d e f'') 5 5 = None \<and>
   chunk_text (py ''a b c d e'') 5 5 = Some [py ''a b c d e'']"
  using chunk_text_nonpositive_step [of 5 5 "py ''a b c d e f''"]
    chunk_text_nonpositive_step [of 5 5 "py ''a b c d e''"]
  by (simp add: py_split_def py_isspace_def)

text \<open>
  Against claim C2 as stated: with \<open>max_words = 5\<close> and \<open>overlap = 5\<close> the call on
  \<open>"one two"\<close> returns a chunk, and the call on six words does not return; neither fails.
\<close>

theorem chunk_text_overlap_5_5_returns_or_loops:
  "chunk_text (py ''one two'') 5 5 = Some [py ''one two''] \<and>
   chunk_text (py ''a b c d e f'') 5 5 = None"
proof -
  have "chunk_loop (py_split (py ''a b c d e f'')) 5 5 [] 0 = None"
    by (rule chunk_loop_diverges) (simp_all add: py_split_def py_isspace_def)
  then show ?thesis by (simp add: chunk_text_def py_split_def py_isspace_def)
qed

text \<open>
  Claim C3, as the code behaves. For \<open>0 \<le> overlap < max_words\<close>, \<open>chunk_text\<close> returns,
  and the words of its \<open>k\<close>-th chunk are the window of at most \<open>max_words\<close> words that
  starts \<open>k * (max_words - overlap)\<close> words into the text, cut off at the end of the text:
  every window that starts fewer than \<open>max_words\<close> words before the end is shorter, not
  only the last one. The first chunk's words followed by the words of each later chunk
  without their first \<open>overlap\<close> words are exactly the words of the text, in order.
\<close>

theorem chunk_text_windows_cover:
  assumes "0 \<le> overlap" and "overlap < max_words"
  shows "\<exists>chunks. chunk_text text max_words overlap = Some chunks \<and>
           (\<forall>k<length chunks.
              py_split (chunks ! k) =
              take (nat max_words) (drop (k * nat (max_words - overlap)) (py_split text))) \<and>
           deoverlap (nat overlap) (map py_split chunks) = py_split text"
proof (cases "int (length (py_split text)) \<le> max_words")
  case True
  then have "chunk_text text max_words overlap = Some [text]"
    by (simp add: chunk_text_def)
  moreover have "take (nat max_words) (py_split text) = py_split text"
    using True by simp
  ultimately show ?thesis by (simp add: deoverlap_def)
next
  case False
  let ?words = "py_split text" and ?m = "nat max_words" and ?s = "nat (max_words - overlap)"
  let ?n = "(length ?words + ?s - 1) div ?s"
  let ?span = "\<lambda>k. take ?m (drop (k * ?s) ?words)"
  let ?chunks = "map (\<lambda>k. py_join (py '' '') (?span k)) [0..<?n]"
  have s: "0 < ?s" and ms: "nat overlap + ?s = ?m" using assms by simp_all
  have c: "chunk_text text max_words overlap = Some ?chunks"
    using False assms by (intro chunk_text_long) simp_all
  have sp: "py_split (py_join (py '' '') (?span k)) = ?span k" for k
    by (rule split_join_sub [where s = "text"])
       (meson order_trans set_take_subset set_drop_subset)
  have spans: "map py_split ?chunks = map ?span [0..<?n]"
    by (simp only: map_map o_def sp)
  have nth: "k < ?n \<Longrightarrow> ?chunks ! k = py_join (py '' '') (?span k)" for k
    by simp
  have up: "length ?words \<le> ?n * ?s"
    using s by (rule ceil_div_upper)
  have "0 < int (length ?words)" using False assms by linarith
  then have "0 < length ?words" by (simp only: of_nat_0_less_iff)
  then have pos: "0 < ?n" using s up by (cases ?n) simp_all
  have "deoverlap (nat overlap) (map py_split ?chunks) = ?words"
    unfolding spans using ms pos up by (rule cover_steps)
  moreover have "\<forall>k<length ?chunks. py_split (?chunks ! k) = ?span k"
  proof (intro allI impI)
    fix k
    assume "k < length ?chunks"
    then have "k < ?n" by simp
    then show "py_split (?chunks ! k) = ?span k" by (simp only: nth sp)
  qed
  ultimately show ?thesis using c by blast
qed

text \<open>The theorem on \<open>"a b c d"\<close> with \<open>max_words = 3\<close> and \<open>overlap = 2\<close>.\<close>

theorem chunk_text_windows_cover_witness:
  "(0::int) \<le> 2 \<and> (2::int) < 3 \<and>
   chunk_text (py ''a b c d'') 3 2 = Some [py ''a b c'', py ''b c d'', py ''c d'', py ''d''] \<and>
   py_split ([py ''a b c'', py ''b c d'', py ''c d'', py ''d''] ! 2) =
     take (nat 3) (drop (2 * nat (3 - 2)) (py_split (py ''a b c d''))) \<and>
   deoverlap (nat 2) (map py_split [py ''a b c'', py ''b c d'', py ''c d'', py ''d'']) =
     py_split (py ''a b c d'')"
proof -
  have c: "chunk_text (py ''a b c d'') 3 2 =
           Some [py ''a b c'', py ''b c d'', py ''c d'', py ''d'']"
    by (simp add: chunk_eval)
  from chunk_text_windows_cover [of 2 3 "py ''a b c d''"]
  obtain chunks where
    a: "chunk_text (py ''a b c d'') 3 2 = Some chunks" and
    b: "\<forall>k<length chunks. py_split (chunks ! k) =
        take (nat 3) (drop (k * nat (3 - 2)) (py_split (py ''a b c d'')))" and
    d: "deoverlap (nat 2) (map py_split chunks) = py_split (py ''a b c d'')"
    by auto
  from a c have e: "chunks = [py ''a b c'', py ''b c d'', py ''c d'', py ''d'']"
    by simp
  have "2 < length chunks" by (simp add: e)
  with b have "py_split (chunks ! 2) =
        take (nat 3) (drop (2 * nat (3 - 2)) (py_split (py ''a b c d'')))"
    by blast
  with c d show ?thesis unfolding e by simp
qed

text \<open>
  Against claim C3 as stated ("the final window may be shorter"): on \<open>"a b c d"\<close> with
  \<open>max_words = 3\<close> and \<open>overlap = 2\<close> the third of the four chunks, which is not the
  final one, has two words.
\<close>

theorem chunk_text_short_window_before_last:
  "chunk_text (py ''a b c d'') 3 2 = Some [py ''a b c'', py ''b c d'', py ''c d'', py ''d''] \<and>
   py_split (py ''c d'') = [py ''c'', py ''d'']"
  by (simp add: chunk_eval)

text \<open>
  Claim C4. A text of at most \<open>max_words\<close> words is returned as the single chunk, equal
  to the text itself; in particular the empty text (\<open>max_words \<ge> 0\<close>, as the default 600
  is) gives the single empty chunk.
\<close>

theorem chunk_text_single:
  "(int (length (py_split text)) \<le> max_words \<longrightarrow> chunk_text text max_words overlap = Some [text]) \<and>
   (0 \<le> max_words \<longrightarrow> chunk_text [] max_words overlap = Some [[]])"
  by (simp add: chunk_text_def py_split_def)

text \<open>The theorem with the defaults, on a text with a doubled space and on the empty text.\<close>

theorem chunk_text_single_witness:
  "int (length (py_split (py ''one  two''))) \<le> 600 \<and>
   chunk_text (py ''one  two'') 600 100 = Some [py ''one  two''] \<and>
   (0::int) \<le> 600 \<and> chunk_text [] 600 100 = Some [[]]"
  using chunk_text_single [of "py ''one  two''" 600 100]
  by (simp add: py_split_def py_isspace_def)

text \<open>
  Claim C10. A text of \<open>W > max_words\<close> words, with \<open>0 \<le> overlap < max_words\<close> and
  \<open>step = max_words - overlap\<close>, gives exactly \<open>\<lceil>W / step\<rceil>\<close> chunks, the \<open>k\<close>-th being
  the join with single spaces of the window of at most \<open>max_words\<close> words that starts at
  word \<open>k * step\<close>.
\<close>

theorem chunk_text_count_and_windows:
  assumes "0 \<le> overlap" and "overlap < max_words"
    and "max_words < int (length (py_split text))"
  shows "chunk_text text max_words overlap =
         Some (map (\<lambda>k. py_join (py '' '')
                      (take (nat max_words) (drop (k * nat (max_words - overlap)) (py_split text))))
                 [0..<nat \<lceil>real (length (py_split text)) / real (nat (max_words - overlap))\<rceil>])"
proof -
  have "0 < nat (max_words - overlap)" using assms by simp
  then show ?thesis
    using chunk_text_long [OF assms] by (simp only: ceil_div)
qed

text \<open>
  The theorem on \<open>"a  b   c"\<close> with \<open>max_words = 2\<close> and \<open>overlap = 1\<close>: three chunks, the
  runs of spaces collapsed, and the last chunk \<open>"c"\<close> already inside the chunk \<open>"b c"\<close>
  before it.
\<close>

theorem chunk_text_count_and_windows_witness:
  "(0::int) \<le> 1 \<and> (1::int) < 2 \<and> 2 < int (length (py_split (py ''a  b   c''))) \<and>
   chunk_text (py ''a  b   c'') 2 1 = Some [py ''a b'', py ''b c'', py ''c'']"
proof -
  have n: "[0..<3] = [0, 1, 2]" by code_simp
  show ?thesis
    using chunk_text_count_and_windows [of 1 2 "py ''a  b   c''"]
    by (simp add: py_split_def py_isspace_def n)
qed

section \<open>Entry identifiers\<close>

lemma str_nat_small: "n < 10 \<Longrightarrow> str_nat n = [48 + n]"
  by (subst str_nat.simps) simp

lemma str_nat_large: "\<not> n < 10 \<Longrightarrow> str_nat n = str_nat (n div 10) @ [48 + n mod 10]"
  by (subst str_nat.simps) simp

text \<open>\<open>str(i)\<close> consists of digits and determines \<open>i\<close>.\<close>

lemma str_nat_digits: "\<forall>c\<in>set (str_nat n). 48 \<le> c \<and> c \<le> 57"
proof (induction n rule: str_nat.induct)
  case (1 n)
  show ?case
  proof (cases "n < 10")
    case True
    then show ?thesis by (simp add: str_nat_small)
  next
    case False
    have "n mod 10 < 10" by simp
    then have "48 + n mod 10 \<le> 57" by linarith
    with False 1 show ?thesis by (simp add: str_nat_large)
  qed
qed

lemma str_nat_value: "foldl (\<lambda>a d. 10 * a + (d - 48)) 0 (str_nat n) = n"
proof (induction n rule: str_nat.induct)
  case (1 n)
  show ?case
  proof (cases "n < 10")
    case True
    then show ?thesis by (simp add: str_nat_small)
  next
    case False
    with 1 show ?thesis by (simp add: str_nat_large)
  qed
qed

lemma str_nat_inj: "str_nat i = str_nat j \<Longrightarrow> i = j"
  by (metis str_nat_value)

text \<open>
  Reading an identifier back: a corpus id without \<open>':'\<close> ends at the first colon, and
  the chunk index is the run of digits at the end, after the \<open>'k'\<close> of \<open>"::chunk"\<close>.
\<close>

lemma colon_free_prefix:
  fixes r1 r2 t1 t2 :: pystr
  assumes "r1 @ 58 # t1 = r2 @ 58 # t2" and "58 \<notin> set r1" and "58 \<notin> set r2"
  shows "r1 = r2 \<and> t1 = t2"
proof -
  have "takeWhile (\<lambda>c. c \<noteq> 58) (r1 @ 58 # t1) = r1"
    using assms(2) by (auto simp: takeWhile_tail)
  moreover have "takeWhile (\<lambda>c. c \<noteq> 58) (r2 @ 58 # t2) = r2"
    using assms(3) by (auto simp: takeWhile_tail)
  ultimately have "r1 = r2" using assms(1) by simp
  with assms(1) show ?thesis by simp
qed

lemma digit_suffix:
  assumes "p1 @ py ''::chunk'' @ str_nat i1 = p2 @ py ''::chunk'' @ str_nat i2"
  shows "p1 = p2 \<and> i1 = i2"
proof -
  let ?dig = "\<lambda>c::nat. 48 \<le> c \<and> c \<le> 57"
  have t: "takeWhile ?dig (rev (str_nat i) @ 107 # u) = rev (str_nat i)" for i u
    using str_nat_digits [of i] by (simp add: takeWhile_tail)
  have r: "rev (p @ py ''::chunk'' @ str_nat i) = rev (str_nat i) @ 107 # rev (p @ py ''::chun'')" for p i
    by simp
  have "takeWhile ?dig (rev (p1 @ py ''::chunk'' @ str_nat i1)) =
        takeWhile ?dig (rev (p2 @ py ''::chunk'' @ str_nat i2))"
    using assms by (simp only:)
  then have "rev (str_nat i1) = rev (str_nat i2)"
    unfolding r t .
  then have e: "str_nat i1 = str_nat i2" by simp
  then have "i1 = i2" by (rule str_nat_inj)
  moreover from assms e have "p1 = p2" by simp
  ultimately show ?thesis by simp
qed

lemma make_id_inj_same_repo:
  "make_id r p1 i1 = make_id r p2 i2 \<Longrightarrow> p1 = p2 \<and> i1 = i2"
  unfolding make_id_def by (rule digit_suffix) simp

lemma make_id_inj_colon_free:
  assumes "make_id r1 p1 i1 = make_id r2 p2 i2" and "58 \<notin> set r1" and "58 \<notin> set r2"
  shows "r1 = r2 \<and> p1 = p2 \<and> i1 = i2"
proof -
  have "r1 @ 58 # (58 # p1 @ py ''::chunk'' @ str_nat i1) =
        r2 @ 58 # (58 # p2 @ py ''::chunk'' @ str_nat i2)"
    using assms(1) by (simp add: make_id_def)
  from colon_free_prefix [OF this assms(2,3)]
  have "r1 = r2" and "p1 @ py ''::chunk'' @ str_nat i1 = p2 @ py ''::chunk'' @ str_nat i2"
    by simp_all
  with digit_suffix show ?thesis by blast
qed

section \<open>The entries built by \<open>main\<close>\<close>

text \<open>With the defaults 600 and 100 the chunker always returns.\<close>

lemma chunk_text_default_returns: "\<exists>chunks. chunk_text txt 600 100 = Some chunks"
proof (cases "int (length (py_split txt)) \<le> 600")
  case True
  then show ?thesis by (simp add: chunk_text_def)
next
  case False
  then show ?thesis using chunk_text_long [of 100 600 "txt"] by simp
qed

text \<open>Hence the nested loops return, with one block of entries per file, in order.\<close>

lemma build_entries_closed:
  "build_entries repo acc items = Some (acc @ concat (map (file_entries repo) items))"
proof (induction items arbitrary: acc)
  case Nil
  then show ?case by simp
next
  case (Cons ft items)
  obtain fname t where ft: "ft = (fname, t)" by (cases ft)
  obtain chunks where c: "chunk_text t 600 100 = Some chunks"
    using chunk_text_default_returns by blast
  have "(if t \<noteq> [] then t else []) = t" by simp
  then show ?case
    unfolding ft by (simp add: c Cons.IH file_entries_def)
qed

lemma file_entries_meta:
  assumes "e \<in> set (file_entries repo (fname, txt))"
  shows "meta_path e = fname \<and> meta_repo e = repo \<and>
         entry_id e = make_id repo fname (meta_chunk e)"
  using assms by (auto simp: file_entries_def make_entry_def split: option.splits)

lemma filter_other_path:
  "fname \<notin> fst ` set items \<Longrightarrow>
   filter (\<lambda>e. meta_path e = fname) (concat (map (file_entries repo) items)) = []"
proof (induction items)
  case Nil
  then show ?case by simp
next
  case (Cons ft items)
  obtain g u where ft: "ft = (g, u)" by (cases ft)
  have "filter (\<lambda>e. meta_path e = fname) (file_entries repo (g, u)) = []"
    using Cons.prems file_entries_meta [of _ repo g u] by (auto simp: ft filter_empty_conv)
  with Cons show ?case by (simp add: ft)
qed

lemma filter_own_path:
  "distinct (map fst items) \<Longrightarrow> (fname, txt) \<in> set items \<Longrightarrow>
   filter (\<lambda>e. meta_path e = fname) (concat (map (file_entries repo) items)) =
   file_entries repo (fname, txt)"
proof (induction items)
  case Nil
  then show ?case by simp
next
  case (Cons ft items)
  obtain g u where ft: "ft = (g, u)" by (cases ft)
  show ?case
  proof (cases "(g, u) = (fname, txt)")
    case True
    have "filter (\<lambda>e. meta_path e = fname) (file_entries repo (fname, txt)) =
          file_entries repo (fname, txt)"
      using file_entries_meta [of _ repo fname "txt"] by (auto simp: filter_id_conv)
    moreover have "fname \<notin> fst ` set items" using Cons.prems(1) True by (simp add: ft)
    ultimately show ?thesis using True by (simp add: ft filter_other_path)
  next
    case False
    then have m: "(fname, txt) \<in> set items" using Cons.prems(2) by (auto simp: ft)
    then have "fname \<in> fst ` set items" by force
    then have "g \<noteq> fname" using Cons.prems(1) by (auto simp: ft)
    then have "filter (\<lambda>e. meta_path e = fname) (file_entries repo (g, u)) = []"
      using file_entries_meta [of _ repo g u] by (auto simp: filter_empty_conv)
    moreover have "distinct (map fst items)" using Cons.prems(1) by simp
    ultimately show ?thesis using Cons.IH m by (simp add: ft)
  qed
qed

text \<open>A text of 601 words, for an example with two chunks.\<close>

lemma split_from_replicate:
  "split_from [] (concat (replicate n [97, 32])) = replicate n [97]"
  by (induction n) (simp_all add: py_isspace_def)

lemma chunk_text_601_words:
  "chunk_text (concat (replicate 601 [97, 32])) 600 100 =
   Some [py_join [32] (replicate 600 [97]), py_join [32] (replicate 101 [97])]"
proof -
  have w: "py_split (concat (replicate 601 [97, 32])) = replicate 601 [97]"
    unfolding py_split_def by (rule split_from_replicate)
  have n: "[0..<2] = [0, 1]" by code_simp
  show ?thesis
    using chunk_text_long [of 100 600 "concat (replicate 601 [97, 32])"]
    by (simp add: w n)
qed

section \<open>Claims about entries\<close>

text \<open>
  Claim C5, as the code behaves. Every entry that the loops of \<open>main\<close> build carries the
  corpus id of the run, and its id is \<open>corpus_id + "::" + path + "::chunk" + str(chunk_index)\<close>
  for its own path and chunk index; the id is a function of these three, so the same input
  gives the same id. Distinct triples give distinct ids when they have the same corpus id,
  or when neither corpus id contains a colon (code point 58). Without that condition two
  triples can share an id.
\<close>

theorem entry_ids_formula_and_uniqueness:
  "(build_entries repo [] items = Some es \<longrightarrow>
      (\<forall>e\<in>set es. meta_repo e = repo \<and>
         entry_id e = repo @ py ''::'' @ meta_path e @ py ''::chunk'' @ str_nat (meta_chunk e))) \<and>
   ((r1 = r2 \<or> (58 \<notin> set r1 \<and> 58 \<notin> set r2)) \<and> (r1, p1, i1) \<noteq> (r2, p2, i2) \<longrightarrow>
      make_id r1 p1 i1 \<noteq> make_id r2 p2 i2)"
proof (intro conjI impI)
  assume "build_entries repo [] items = Some es"
  then have es: "es = concat (map (file_entries repo) items)"
    by (simp add: build_entries_closed)
  show "\<forall>e\<in>set es. meta_repo e = repo \<and>
          entry_id e = repo @ py ''::'' @ meta_path e @ py ''::chunk'' @ str_nat (meta_chunk e)"
  proof
    fix e
    assume "e \<in> set es"
    then obtain fname t where "e \<in> set (file_entries repo (fname, t))"
      unfolding es by auto
    from file_entries_meta [OF this] show "meta_repo e = repo \<and>
          entry_id e = repo @ py ''::'' @ meta_path e @ py ''::chunk'' @ str_nat (meta_chunk e)"
      by (simp add: make_id_def)
  qed
next
  assume a: "(r1 = r2 \<or> (58 \<notin> set r1 \<and> 58 \<notin> set r2)) \<and> (r1, p1, i1) \<noteq> (r2, p2, i2)"
  show "make_id r1 p1 i1 \<noteq> make_id r2 p2 i2"
  proof
    assume e: "make_id r1 p1 i1 = make_id r2 p2 i2"
    from a have "r1 = r2 \<or> (58 \<notin> set r1 \<and> 58 \<notin> set r2)" by simp
    then have "r1 = r2 \<and> p1 = p2 \<and> i1 = i2"
    proof
      assume "r1 = r2"
      with e make_id_inj_same_repo [of r2 p1 i1 p2 i2] show ?thesis by simp
    next
      assume "58 \<notin> set r1 \<and> 58 \<notin> set r2"
      with e make_id_inj_colon_free [of r1 p1 i1 r2 p2 i2] show ?thesis by simp
    qed
    with a show False by simp
  qed
qed

text \<open>
  The theorem on a one-file corpus, and on two triples that differ in the corpus id only.
\<close>

theorem entry_ids_formula_and_uniqueness_witness:
  "build_entries (py ''repo'') [] [(py ''a.txt'', py ''x y'')] =
     Some [\<lparr>entry_id = py ''repo::a.txt::chunk0'', entry_text = py ''x y'',
            meta_repo = py ''repo'', meta_path = py ''a.txt'', meta_chunk = 0\<rparr>] \<and>
   py ''repo::a.txt::chunk0'' = py ''repo'' @ py ''::'' @ py ''a.txt'' @ py ''::chunk'' @ str_nat 0 \<and>
   58 \<notin> set (py ''repo'') \<and> 58 \<notin> set (py ''docs'') \<and>
   (py ''repo'', py ''a::b'', 1::nat) \<noteq> (py ''docs'', py ''a::b'', 1) \<and>
   make_id (py ''repo'') (py ''a::b'') 1 \<noteq> make_id (py ''docs'') (py ''a::b'') 1"
proof -
  have b: "build_entries (py ''repo'') [] [(py ''a.txt'', py ''x y'')] =
     Some [\<lparr>entry_id = py ''repo::a.txt::chunk0'', entry_text = py ''x y'',
            meta_repo = py ''repo'', meta_path = py ''a.txt'', meta_chunk = 0\<rparr>]"
    by (simp add: chunk_eval make_entry_def make_id_def str_nat_small)
  have h: "58 \<notin> set (py ''repo'') \<and> 58 \<notin> set (py ''docs'') \<and>
           (py ''repo'', py ''a::b'', 1::nat) \<noteq> (py ''docs'', py ''a::b'', 1)"
    by simp
  from entry_ids_formula_and_uniqueness
    [of "py ''repo''" "[(py ''a.txt'', py ''x y'')]"
        "[\<lparr>entry_id = py ''repo::a.txt::chunk0'', entry_text = py ''x y'',
            meta_repo = py ''repo'', meta_path = py ''a.txt'', meta_chunk = 0\<rparr>]"
        "py ''repo''" "py ''docs''" "py ''a::b''" 1 "py ''a::b''" 1] b h
  have "py ''repo::a.txt::chunk0'' =
          py ''repo'' @ py ''::'' @ py ''a.txt'' @ py ''::chunk'' @ str_nat 0"
    and "make_id (py ''repo'') (py ''a::b'') 1 \<noteq> make_id (py ''docs'') (py ''a::b'') 1"
    by simp_all
  with b h show ?thesis by blast
qed

text \<open>
  Against claim C5 as stated ("globally unique"): the corpus \<open>"a::b"\<close> with the path
  \<open>"c"\<close> and the corpus \<open>"a"\<close> with the path \<open>"b::c"\<close> give the same id for chunk 0.
\<close>

theorem make_id_collision:
  "make_id (py ''a::b'') (py ''c'') 0 = make_id (py ''a'') (py ''b::c'') 0 \<and>
   py ''a::b'' \<noteq> py ''a'' \<and> py ''c'' \<noteq> py ''b::c''"
  by (simp add: make_id_def)

text \<open>
  Claim C6. When the reader yields each path once, the entries of one ingestion that
  belong to a path have the chunk indices \<open>0, 1, ..., n - 1\<close>, in this order, and their
  texts are the \<open>n\<close> chunks of the file's text in the order the chunker produced them.
\<close>

theorem chunk_indices_contiguous:
  assumes "build_entries repo [] items = Some es"
    and "distinct (map fst items)" and "(fname, txt) \<in> set items"
  shows "\<exists>chunks. chunk_text txt 600 100 = Some chunks \<and>
           map meta_chunk (filter (\<lambda>e. meta_path e = fname) es) = [0..<length chunks] \<and>
           map entry_text (filter (\<lambda>e. meta_path e = fname) es) = chunks"
proof -
  obtain chunks where c: "chunk_text txt 600 100 = Some chunks"
    using chunk_text_default_returns by blast
  have "es = concat (map (file_entries repo) items)"
    using assms(1) by (simp add: build_entries_closed)
  then have f: "filter (\<lambda>e. meta_path e = fname) es =
                map (make_entry repo fname) (enumerate 0 chunks)"
    using filter_own_path [OF assms(2,3)] by (simp add: file_entries_def c)
  have "map meta_chunk (map (make_entry repo fname) (enumerate 0 chunks)) = [0..<length chunks]"
    using map_fst_enumerate [of 0 chunks] by (simp add: make_entry_def o_def)
  moreover have "map entry_text (map (make_entry repo fname) (enumerate 0 chunks)) = chunks"
    using map_snd_enumerate [of 0 chunks] by (simp add: make_entry_def o_def)
  ultimately show ?thesis using c f by simp
qed

text \<open>
  The theorem on a corpus of two files, one of 601 words (two chunks) and an empty one.
\<close>

theorem chunk_indices_contiguous_witness:
  "build_entries (py ''repo'') []
     [(py ''a.txt'', concat (replicate 601 (py ''a ''))), (py ''b.txt'', [])] =
     Some [make_entry (py ''repo'') (py ''a.txt'') (0, py_join (py '' '') (replicate 600 (py ''a''))),
           make_entry (py ''repo'') (py ''a.txt'') (1, py_join (py '' '') (replicate 101 (py ''a''))),
           make_entry (py ''repo'') (py ''b.txt'') (0, [])] \<and>
   distinct (map fst [(py ''a.txt'', concat (replicate 601 (py ''a ''))), (py ''b.txt'', [])]) \<and>
   (py ''a.txt'', concat (replicate 601 (py ''a ''))) \<in>
     set [(py ''a.txt'', concat (replicate 601 (py ''a ''))), (py ''b.txt'', [])] \<and>
   map meta_chunk (filter (\<lambda>e. meta_path e = py ''a.txt'')
     [make_entry (py ''repo'') (py ''a.txt'') (0, py_join (py '' '') (replicate 600 (py ''a''))),
      make_entry (py ''repo'') (py ''a.txt'') (1, py_join (py '' '') (replicate 101 (py ''a''))),
      make_entry (py ''repo'') (py ''b.txt'') (0, [])]) = [0, 1] \<and>
   map entry_text (filter (\<lambda>e. meta_path e = py ''a.txt'')
     [make_entry (py ''repo'') (py ''a.txt'') (0, py_join (py '' '') (replicate 600 (py ''a''))),
      make_entry (py ''repo'') (py ''a.txt'') (1, py_join (py '' '') (replicate 101 (py ''a''))),
      make_entry (py ''repo'') (py ''b.txt'') (0, [])]) =
     [py_join (py '' '') (replicate 600 (py ''a'')), py_join (py '' '') (replicate 101 (py ''a''))]"
proof -
  let ?t = "concat (replicate 601 (py ''a ''))"
  let ?items = "[(py ''a.txt'', ?t), (py ''b.txt'', [])]"
  let ?es = "[make_entry (py ''repo'') (py ''a.txt'') (0, py_join (py '' '') (replicate 600 (py ''a''))),
      make_entry (py ''repo'') (py ''a.txt'') (1, py_join (py '' '') (replicate 101 (py ''a''))),
      make_entry (py ''repo'') (py ''b.txt'') (0, [])]"
  have e: "chunk_text [] 600 100 = Some [[]]" by (simp add: chunk_eval)
  have ne: "?t \<noteq> []" by (simp add: concat_eq_Nil_conv)
  have b: "build_entries (py ''repo'') [] ?items = Some ?es"
    unfolding build_entries.simps using ne by (simp add: chunk_text_601_words e)
  have d: "distinct (map fst ?items)" by simp
  have m: "(py ''a.txt'', ?t) \<in> set ?items" by simp
  from chunk_indices_contiguous [OF b d m] obtain chunks where
    k: "chunk_text ?t 600 100 = Some chunks" and
    i: "map meta_chunk (filter (\<lambda>e. meta_path e = py ''a.txt'') ?es) = [0..<length chunks]" and
    x: "map entry_text (filter (\<lambda>e. meta_path e = py ''a.txt'') ?es) = chunks"
    by blast
  from k chunk_text_601_words
  have ch: "chunks = [py_join [32] (replicate 600 [97]), py_join [32] (replicate 101 [97])]"
    by simp
  have u: "[0..<length chunks] = [0, 1]" unfolding ch by simp
  from i x have "map meta_chunk (filter (\<lambda>e. meta_path e = py ''a.txt'') ?es) = [0, 1]"
    and "map entry_text (filter (\<lambda>e. meta_path e = py ''a.txt'') ?es) =
         [py_join (py '' '') (replicate 600 (py ''a'')), py_join (py '' '') (replicate 101 (py ''a''))]"
    unfolding u ch by simp_all
  with b d m show ?thesis by blast
qed

section \<open>Claims about the corpus reader\<close>


text \<open>
  A walk that meets an entry on which \<open>is_file()\<close> raises: the reader raises, whatever
  the other entries are, and the pairs built so far are lost.
\<close>

lemma read_dir_stat_raises:
  "StatRaises \<in> snd ` set fs \<Longrightarrow> read_dir items fs = Inl OSError"
proof (induction items fs rule: read_dir.induct)
  case (1 items)
  then show ?case by simp
next
  case (2 items rel fs)
  then show ?case by simp
next
  case (3 items rel fs)
  then show ?case by simp
next
  case (4 items rel f fs)
  then show ?case by (cases f) simp_all
qed

lemma read_files_stat_raises_example:
  "read_files (DirNode [(py ''a'', RegularFile (Readable [Some 104])),
                        (py ''locked/b'', StatRaises)]) = Inl OSError"
  by simp




text \<open>A single file that can be read gives the one pair, under the file's own name.\<close>

lemma read_files_single_readable:
  "read_files (FileNode name (Readable us)) = Inr [(name, universal_newlines (decode_ignore us))]"
  by simp

text \<open>
  Claim C8 at a root that is a single file whose reading raises: the single-file branch
  has no \<open>try\<close>, so the reader raises and yields no pair at all, where the directory
  branch would have yielded \<open>(path, "")\<close>.
\<close>

theorem read_files_single_unreadable:
  "read_files (FileNode (py ''notes.txt'') Unreadable) = Inl OSError"
  by simp

section \<open>Claims about \<open>main\<close>\<close>

lemma attach_fst:
  "attach i es embs = Inr full \<Longrightarrow> map fst full = es"
proof (induction es arbitrary: i full)
  case Nil
  then show ?case by simp
next
  case (Cons e es)
  then show ?case by (auto split: if_splits sum.splits)
qed

text \<open>
  The entries that a completed run writes are those that the nested loops built from what
  the reader yielded, so the statements about \<open>build_entries\<close> are about the output.
\<close>

lemma main_done_entries:
  assumes "main encode root_node can_write argv = Some (Done out full line)"
  shows "\<exists>items. read_files root_node = Inr items \<and>
           build_entries (if length argv > 3 then argv ! 3 else py ''repo'') [] items =
             Some (map fst full)"
  using assms unfolding main_def Let_def build_entries_closed
  by (auto split: if_splits sum.splits dest: attach_fst)

text \<open>
  Claim C9, as the code behaves. A run of \<open>main\<close> always ends, and when it completes, the
  line it prints is exactly \<open>"Wrote N entries"\<close> with \<open>N\<close> the number of entries dumped
  to the output file. The line says nothing else: skipped files are not reported.
\<close>

theorem main_reports_count:
  "(\<exists>r. main encode root_node can_write argv = Some r) \<and>
   (\<forall>out full line. main encode root_node can_write argv = Some (Done out full line) \<longrightarrow>
      line = py ''Wrote '' @ str_nat (length full) @ py '' entries'')"
proof -
  have l: "attach 0 es embs = Inr full \<Longrightarrow> length full = length es" for es full
    and embs :: "'a list"
    using attach_fst [of 0 es embs full] by (metis length_map)
  show ?thesis
    unfolding main_def Let_def build_entries_closed
    by (auto split: sum.splits dest: l)
qed

text \<open>The theorem on a run over a directory with one file \<open>"hi"\<close>.\<close>

theorem main_reports_count_witness:
  "main (Inr \<circ> map length) (DirNode [(py ''x'', RegularFile (Readable [Some 104, Some 105]))]) True
      [py ''embed_all_files.py'', py ''corpus'', py ''out.json''] =
   Some (Done (py ''out.json'')
     [(\<lparr>entry_id = py ''repo::x::chunk0'', entry_text = py ''hi'',
        meta_repo = py ''repo'', meta_path = py ''x'', meta_chunk = 0\<rparr>, 2)]
     (py ''Wrote 1 entries'')) \<and>
   py ''Wrote 1 entries'' = py ''Wrote '' @ str_nat (length [(0::nat, 0::nat)]) @ py '' entries''"
proof -
  have m: "main (Inr \<circ> map length) (DirNode [(py ''x'', RegularFile (Readable [Some 104, Some 105]))]) True
      [py ''embed_all_files.py'', py ''corpus'', py ''out.json''] =
   Some (Done (py ''out.json'')
     [(\<lparr>entry_id = py ''repo::x::chunk0'', entry_text = py ''hi'',
        meta_repo = py ''repo'', meta_path = py ''x'', meta_chunk = 0\<rparr>, 2)]
     (py ''Wrote 1 entries''))"
    by (simp add: main_def decode_ignore_def chunk_eval make_entry_def make_id_def str_nat_small)
  from main_reports_count [of "Inr \<circ> map length"
      "DirNode [(py ''x'', RegularFile (Readable [Some 104, Some 105]))]" True
      "[py ''embed_all_files.py'', py ''corpus'', py ''out.json'']"] m
  show ?thesis by (simp add: str_nat_small)
qed

text \<open>
  Against claim C9 as stated: a run over a directory whose only file cannot be read, and a
  run over a directory whose only file is empty, write the same entry and print the same
  line \<open>"Wrote 1 entries"\<close>, though the first run skipped a file and the second did not.
\<close>

theorem main_report_silent_on_skipped:
  "main (Inr \<circ> map length) (DirNode [(py ''x'', RegularFile Unreadable)]) True
      [py ''embed_all_files.py'', py ''corpus'', py ''out.json''] =
   Some (Done (py ''out.json'')
     [(\<lparr>entry_id = py ''repo::x::chunk0'', entry_text = [],
        meta_repo = py ''repo'', meta_path = py ''x'', meta_chunk = 0\<rparr>, 0)]
     (py ''Wrote 1 entries'')) \<and>
   main (Inr \<circ> map length) (DirNode [(py ''x'', RegularFile (Readable []))]) True
      [py ''embed_all_files.py'', py ''corpus'', py ''out.json''] =
   Some (Done (py ''out.json'')
     [(\<lparr>entry_id = py ''repo::x::chunk0'', entry_text = [],
        meta_repo = py ''repo'', meta_path = py ''x'', meta_chunk = 0\<rparr>, 0)]
     (py ''Wrote 1 entries'')) \<and>
   skipped_files (DirNode [(py ''x'', RegularFile Unreadable)]) = [py ''x''] \<and>
   skipped_files (DirNode [(py ''x'', RegularFile (Readable []))]) = []"
  by (simp add: main_def decode_ignore_def chunk_eval make_entry_def make_id_def str_nat_small)

end
